theory Spec2Isabelle
  imports Complex_Main "HOL-Library.Char_ord"
begin

section \<open>The ANSI console renderer of src/dbg/console.h\<close>

text \<open>
  The class \<open>FastAnsiParser\<close> walks a byte buffer, interprets SGR escape sequences
  and control characters, and issues one \<open>AddText\<close> draw call per literal span.

  Modelling decisions.
  \<^item> The buffer is a \<open>string\<close> (a list of 8-bit characters); pointers into it are
    offsets of type \<open>nat\<close>, and \<open>end\<close> is \<open>length text\<close>. Every read
    \<open>text ! p\<close> of the model is guarded by \<open>p < length text\<close>, as every
    dereference of the source is guarded by \<open>ptr < end\<close>.
  \<^item> C's \<open>int\<close> is the mathematical \<open>int\<close>: signed overflow is undefined in C, so
    the model describes the executions in which no digit run overflows. The 32-bit
    accumulator is modelled beside it (\<open>parseAnsiCode32\<close>, \<open>None\<close> on overflow); the
    two agree whenever the parsed value fits in an \<open>int\<close>, and a property of the
    parsed value itself is stated within that range.
  \<^item> \<open>float\<close> coordinates are \<open>real\<close> numbers (no rounding).
  \<^item> The macro \<open>IM_COL32\<close> comes from imgui.h, which is not part of the repository:
    a colour is kept as the four arguments handed to the macro.
  \<^item> The presentation framework (cursor origin, line height, text measurement) is a
    record of parameters; the draw list is the list of \<open>AddText\<close> calls made so far.
  \<^item> The escape-sequence loop and the main loop are \<open>partial_function (option)\<close>:
    \<open>None\<close> is a loop that never exits.
\<close>

subsection \<open>Colours\<close>

datatype ImU32 = IM_COL32 int int int int

definition ANSI_COLORS :: "ImU32 list" where
  "ANSI_COLORS =
     [IM_COL32 40 40 40 255,
      IM_COL32 220 80 80 255,
      IM_COL32 80 220 80 255,
      IM_COL32 220 220 80 255,
      IM_COL32 80 80 220 255,
      IM_COL32 220 80 220 255,
      IM_COL32 80 220 220 255,
      IM_COL32 220 220 220 255,
      IM_COL32 160 160 160 255,
      IM_COL32 255 120 120 255,
      IM_COL32 120 255 120 255,
      IM_COL32 255 255 120 255,
      IM_COL32 120 120 255 255,
      IM_COL32 255 120 255 255,
      IM_COL32 120 255 255 255,
      IM_COL32 255 255 255 255]"

definition DEFAULT_COLOR :: ImU32 where
  "DEFAULT_COLOR = IM_COL32 255 255 255 255"

text \<open>
  \<open>ansi256ToRgb\<close>. C's \<open>/\<close> and \<open>%\<close> truncate towards zero; in the middle branch
  the operand \<open>code - 16\<close> is not negative, where they agree with \<open>div\<close> and \<open>mod\<close>.
  The table read \<open>ANSI_COLORS[code]\<close> is in range for \<open>0 \<le> code\<close>; the callers pass
  the result of \<open>parseAnsiCode\<close>, which is never negative.
\<close>

definition ansi256ToRgb :: "int \<Rightarrow> ImU32" where
  "ansi256ToRgb code =
     (if code < 16 then ANSI_COLORS ! nat code
      else if code < 232 then
        (let code' = code - 16;
             r = (code' div 36) * 51;
             g = ((code' mod 36) div 6) * 51;
             b = (code' mod 6) * 51
         in IM_COL32 r g b 255)
      else
        (let gray = 8 + (code - 232) * 10
         in IM_COL32 gray gray gray 255))"

subsection \<open>Integer parsing\<close>

definition isDigit :: "char \<Rightarrow> bool" where
  "isDigit c \<longleftrightarrow> CHR ''0'' \<le> c \<and> c \<le> CHR ''9''"

definition digitVal :: "char \<Rightarrow> int" where
  "digitVal c = int (of_char c) - int (of_char (CHR ''0''))"

function parseAnsiCode_loop :: "string \<Rightarrow> nat \<Rightarrow> int \<Rightarrow> int \<times> nat" where
  "parseAnsiCode_loop text ptr result =
     (if ptr < length text \<and> isDigit (text ! ptr)
      then parseAnsiCode_loop text (ptr + 1) (result * 10 + digitVal (text ! ptr))
      else (result, ptr))"
  by pat_completeness auto
termination
  by (relation "measure (\<lambda>(text, ptr, result). length text - ptr)") auto

declare parseAnsiCode_loop.simps [simp del]

definition parseAnsiCode :: "string \<Rightarrow> nat \<Rightarrow> int \<times> nat" where
  "parseAnsiCode text ptr = parseAnsiCode_loop text ptr 0"

text \<open>
  The same loop with the 32-bit accumulator of the source: \<open>None\<close> as soon as
  \<open>result * 10 + digit\<close> leaves the range of \<open>int\<close>, where C leaves the behaviour
  undefined.
\<close>

definition INT_MAX :: int where
  "INT_MAX = 2147483647"

function parseAnsiCode_loop32 :: "string \<Rightarrow> nat \<Rightarrow> int \<Rightarrow> (int \<times> nat) option" where
  "parseAnsiCode_loop32 text ptr result =
     (if ptr < length text \<and> isDigit (text ! ptr)
      then (if result * 10 + digitVal (text ! ptr) \<le> INT_MAX
            then parseAnsiCode_loop32 text (ptr + 1) (result * 10 + digitVal (text ! ptr))
            else None)
      else Some (result, ptr))"
  by pat_completeness auto
termination
  by (relation "measure (\<lambda>(text, ptr, result). length text - ptr)") auto

declare parseAnsiCode_loop32.simps [simp del]

definition parseAnsiCode32 :: "string \<Rightarrow> nat \<Rightarrow> (int \<times> nat) option" where
  "parseAnsiCode32 text ptr = parseAnsiCode_loop32 text ptr 0"

subsection \<open>The state of one call\<close>

record env =
  startPos_x :: real
  startPos_y :: real
  lineHeight :: real
  CalcTextSize_x :: "string \<Rightarrow> real"

text \<open>One call \<open>drawList->AddText(pos, col, text_begin, text_end)\<close>.\<close>

record draw =
  d_pos_x :: real
  d_pos_y :: real
  d_col :: ImU32
  d_begin :: nat
  d_end :: nat

record render =
  pos_x :: real
  pos_y :: real
  currentColor :: ImU32
  currentBold :: bool
  draws :: "draw list"

definition initial :: "env \<Rightarrow> render" where
  "initial E =
     \<lparr>pos_x = startPos_x E, pos_y = startPos_y E,
      currentColor = DEFAULT_COLOR, currentBold = False, draws = []\<rparr>"

definition span :: "string \<Rightarrow> nat \<Rightarrow> nat \<Rightarrow> string" where
  "span text b e = take (e - b) (drop b text)"

subsection \<open>renderTextSegment\<close>

definition AddText :: "render \<Rightarrow> nat \<Rightarrow> nat \<Rightarrow> render" where
  "AddText R b e =
     R\<lparr>draws := draws R @
        [\<lparr>d_pos_x = pos_x R, d_pos_y = pos_y R, d_col = currentColor R,
          d_begin = b, d_end = e\<rparr>]\<rparr>"

text \<open>The block repeated in every branch: draw the pending text, advance the pen.\<close>

definition flushText :: "env \<Rightarrow> string \<Rightarrow> nat \<Rightarrow> nat \<Rightarrow> render \<Rightarrow> render" where
  "flushText E text segStart current R =
     (if current > segStart
      then (let R' = AddText R segStart current
            in R'\<lparr>pos_x := pos_x R' + CalcTextSize_x E (span text segStart current)\<rparr>)
      else R)"

text \<open>The cast \<open>(int)\<close> of a float truncates towards zero.\<close>

definition int_cast :: "real \<Rightarrow> int" where
  "int_cast v = (if 0 \<le> v then \<lfloor>v\<rfloor> else \<lceil>v\<rceil>)"

definition newline :: "env \<Rightarrow> render \<Rightarrow> render" where
  "newline E R = R\<lparr>pos_x := startPos_x E, pos_y := pos_y R + lineHeight E\<rparr>"

definition carriageReturn :: "env \<Rightarrow> render \<Rightarrow> render" where
  "carriageReturn E R = R\<lparr>pos_x := startPos_x E\<rparr>"

text \<open>
  With a reference width of 0 the source divides by 0.0 and casts the result; whatever
  integer the cast gives, the product with \<open>tabWidth = 0\<close> is 0, which is what
  \<open>x / 0 = 0\<close> gives here.
\<close>

definition tab :: "env \<Rightarrow> render \<Rightarrow> render" where
  "tab E R =
     (let charWidth = CalcTextSize_x E ''A'';
          tabWidth = charWidth * 8;
          currentColumn = pos_x R - startPos_x E;
          nextTabStop = real_of_int (int_cast (currentColumn / tabWidth) + 1) * tabWidth
      in R\<lparr>pos_x := startPos_x E + nextTabStop\<rparr>)"

definition backspace :: "env \<Rightarrow> render \<Rightarrow> render" where
  "backspace E R =
     (let charWidth = CalcTextSize_x E ''A''
      in R\<lparr>pos_x := max (startPos_x E) (pos_x R - charWidth)\<rparr>)"

text \<open>The inner \<open>while (current < segEnd)\<close> with the final flush after it.\<close>

function segLoop :: "env \<Rightarrow> string \<Rightarrow> nat \<Rightarrow> nat \<Rightarrow> nat \<Rightarrow> render \<Rightarrow> render" where
  "segLoop E text segStart current segEnd R =
     (if current < segEnd then
        (if text ! current = CHR 0x0A then
           segLoop E text (current + 1) (current + 1) segEnd
             (newline E (flushText E text segStart current R))
         else if text ! current = CHR 0x0D then
           segLoop E text (current + 1) (current + 1) segEnd
             (carriageReturn E (flushText E text segStart current R))
         else if text ! current = CHR 0x09 then
           segLoop E text (current + 1) (current + 1) segEnd
             (tab E (flushText E text segStart current R))
         else if text ! current = CHR 0x08 then
           segLoop E text (current + 1) (current + 1) segEnd
             (backspace E (flushText E text segStart current R))
         else if (of_char (text ! current) :: nat) < 32 \<and> text ! current \<noteq> CHR 0x1B then
           segLoop E text (current + 1) (current + 1) segEnd
             (flushText E text segStart current R)
         else segLoop E text segStart (current + 1) segEnd R)
      else flushText E text segStart current R)"
  by pat_completeness auto
termination
  by (relation "measure (\<lambda>(E, text, segStart, current, segEnd, R). segEnd - current)") auto

declare segLoop.simps [simp del]

text \<open>The outer \<open>while (segStart < segEnd)\<close> runs its body once and breaks.\<close>

definition renderTextSegment :: "env \<Rightarrow> string \<Rightarrow> nat \<Rightarrow> nat \<Rightarrow> render \<Rightarrow> render" where
  "renderTextSegment E text segStart segEnd R =
     (if segStart < segEnd then segLoop E text segStart segStart segEnd R else R)"

subsection \<open>Escape sequences\<close>

definition atSemicolon :: "string \<Rightarrow> nat \<Rightarrow> bool" where
  "atSemicolon text ptr \<longleftrightarrow> ptr < length text \<and> text ! ptr = CHR '';''"

text \<open>
  The if-chain on \<open>code\<close> in the body of the escape loop; \<open>ptr\<close> is the position
  after the digits of \<open>code\<close>.
\<close>

definition applyCode :: "string \<Rightarrow> int \<Rightarrow> nat \<Rightarrow> render \<Rightarrow> nat \<times> render" where
  "applyCode text code ptr R =
     (if code = 0 then (ptr, R\<lparr>currentColor := DEFAULT_COLOR, currentBold := False\<rparr>)
      else if code = 1 then (ptr, R\<lparr>currentBold := True\<rparr>)
      else if code = 22 then (ptr, R\<lparr>currentBold := False\<rparr>)
      else if 30 \<le> code \<and> code \<le> 37 then
        (ptr, R\<lparr>currentColor := ANSI_COLORS ! nat (code - 30)\<rparr>)
      else if 90 \<le> code \<and> code \<le> 97 then
        (ptr, R\<lparr>currentColor := ANSI_COLORS ! nat (code - 90 + 8)\<rparr>)
      else if code = 38 \<and> atSemicolon text ptr then
        (case parseAnsiCode text (ptr + 1) of (type, p2) \<Rightarrow>
           if type = 5 \<and> atSemicolon text p2 then
             (case parseAnsiCode text (p2 + 1) of (colorCode, p3) \<Rightarrow>
                (p3, R\<lparr>currentColor := ansi256ToRgb colorCode\<rparr>))
           else if type = 2 then
             (if atSemicolon text p2 then
                (case parseAnsiCode text (p2 + 1) of (r, p3) \<Rightarrow>
                   if atSemicolon text p3 then
                     (case parseAnsiCode text (p3 + 1) of (g, p4) \<Rightarrow>
                        if atSemicolon text p4 then
                          (case parseAnsiCode text (p4 + 1) of (b, p5) \<Rightarrow>
                             (p5, R\<lparr>currentColor := IM_COL32 r g b 255\<rparr>))
                        else (p4, R))
                   else (p3, R))
              else (p2, R))
           else (p2, R))
      else (ptr, R))"

text \<open>One iteration of \<open>while (ptr < end && *ptr != 'm')\<close>.\<close>

definition escBody :: "string \<Rightarrow> nat \<Rightarrow> render \<Rightarrow> nat \<times> render" where
  "escBody text ptr R =
     (case parseAnsiCode text ptr of (code, p1) \<Rightarrow>
        case applyCode text code p1 R of (p2, R') \<Rightarrow>
          (if atSemicolon text p2 then p2 + 1 else p2, R'))"

partial_function (option) escLoop :: "string \<Rightarrow> nat \<Rightarrow> render \<Rightarrow> (nat \<times> render) option" where
  "escLoop text ptr R =
     (if ptr < length text \<and> text ! ptr \<noteq> CHR ''m''
      then (case escBody text ptr R of (ptr', R') \<Rightarrow> escLoop text ptr' R')
      else Some (ptr, R))"

declare escLoop.simps [code]

definition isEscapeStart :: "string \<Rightarrow> nat \<Rightarrow> bool" where
  "isEscapeStart text ptr \<longleftrightarrow>
     text ! ptr = CHR 0x1B \<and> ptr + 1 < length text \<and> text ! (ptr + 1) = CHR ''[''"

definition skip_m :: "string \<Rightarrow> nat \<Rightarrow> nat" where
  "skip_m text ptr = (if ptr < length text \<and> text ! ptr = CHR ''m'' then ptr + 1 else ptr)"

subsection \<open>RenderAnsiText\<close>

text \<open>The main \<open>while (ptr < end)\<close>; it returns \<open>ptr\<close>, \<open>segmentStart\<close> and the state.\<close>

partial_function (option) mainLoop ::
  "env \<Rightarrow> string \<Rightarrow> nat \<Rightarrow> nat \<Rightarrow> render \<Rightarrow> (nat \<times> nat \<times> render) option" where
  "mainLoop E text ptr segmentStart R =
     (if ptr < length text then
        (if isEscapeStart text ptr then
           Option.bind
             (escLoop text (ptr + 2)
                (if ptr > segmentStart then renderTextSegment E text segmentStart ptr R else R))
             (\<lambda>(p, R'). mainLoop E text (skip_m text p) (skip_m text p) R')
         else mainLoop E text (ptr + 1) segmentStart R)
      else Some (ptr, segmentStart, R))"

declare mainLoop.simps [code]

text \<open>Everything up to and including "Render final segment".\<close>

definition scanBuffer :: "env \<Rightarrow> string \<Rightarrow> render option" where
  "scanBuffer E text =
     Option.bind (mainLoop E text 0 0 (initial E))
       (\<lambda>(ptr, segmentStart, R).
          Some (if ptr > segmentStart then renderTextSegment E text segmentStart ptr R else R))"

text \<open>"Update cursor position": the state holds the position given to \<open>SetCursorScreenPos\<close>.\<close>

definition cursorUpdate :: "env \<Rightarrow> string \<Rightarrow> render \<Rightarrow> render" where
  "cursorUpdate E text R =
     (let n = length text in
      if n > 0 then
        (if text ! (n - 1) = CHR 0x0A then
           (let R' = R\<lparr>pos_x := startPos_x E\<rparr>
            in if n = 1 \<or> text ! (n - 2) \<noteq> CHR 0x0D
               then R'\<lparr>pos_y := pos_y R' + lineHeight E\<rparr> else R')
         else if text ! (n - 1) = CHR 0x0D then R\<lparr>pos_x := startPos_x E\<rparr>
         else R)
      else R)"

text \<open>
  \<open>text\<close> is the buffer of \<open>length\<close> bytes the call works on (for \<open>length == 0\<close> the
  bytes up to the terminating NUL, by \<open>strlen\<close>); a null pointer returns at once and
  is not an input of the model.
\<close>

definition RenderAnsiText :: "env \<Rightarrow> string \<Rightarrow> render option" where
  "RenderAnsiText E text = map_option (cursorUpdate E text) (scanBuffer E text)"

text \<open>A presentation framework for examples: every byte is one unit wide.\<close>

definition unitEnv :: env where
  "unitEnv = \<lparr>startPos_x = 0, startPos_y = 0, lineHeight = 1,
              CalcTextSize_x = (\<lambda>s. real (length s))\<rparr>"

text \<open>
  A position of the escape loop at which the body consumes nothing: the byte is
  neither the terminator, nor a separator, nor a digit.
\<close>

definition stuckAt :: "string \<Rightarrow> nat \<Rightarrow> bool" where
  "stuckAt text ptr \<longleftrightarrow>
     ptr < length text \<and> text ! ptr \<noteq> CHR ''m'' \<and> text ! ptr \<noteq> CHR '';'' \<and>
     \<not> isDigit (text ! ptr)"

text \<open>A byte that is not a control character.\<close>

definition printable :: "char \<Rightarrow> bool" where
  "printable c \<longleftrightarrow> 32 \<le> (of_char c :: nat)"

text \<open>No escape sequence starts at a position of \<open>[a, b)\<close>.\<close>

definition noEscapeIn :: "string \<Rightarrow> nat \<Rightarrow> nat \<Rightarrow> bool" where
  "noEscapeIn text a b \<longleftrightarrow> (\<forall>i. a \<le> i \<and> i < b \<longrightarrow> \<not> isEscapeStart text i)"

text \<open>
  The pen, now and at every draw call made so far, is not left of the line start.
\<close>

definition penInv :: "env \<Rightarrow> render \<Rightarrow> bool" where
  "penInv E R \<longleftrightarrow>
     startPos_x E \<le> pos_x R \<and> (\<forall>d \<in> set (draws R). startPos_x E \<le> d_pos_x d)"

text \<open>
  A byte that \<open>renderTextSegment\<close> leaves inside a run: not a control character, or
  the ESC byte, which its last test lets through.
\<close>

definition literalByte :: "char \<Rightarrow> bool" where
  "literalByte c \<longleftrightarrow> printable c \<or> c = CHR 0x1B"



section \<open>Properties\<close>

lemmas parse_eval = parseAnsiCode_def parseAnsiCode_loop.simps isDigit_def digitVal_def

subsection \<open>256-colour indices\<close>

lemma applyCode_38_5:
  assumes "atSemicolon text ptr" and "parseAnsiCode text (ptr + 1) = (5, p2)"
    and "atSemicolon text p2" and "parseAnsiCode text (p2 + 1) = (N, p3)"
  shows "applyCode text 38 ptr R = (p3, R\<lparr>currentColor := ansi256ToRgb N\<rparr>)"
  using assms by (simp add: applyCode_def)

text \<open>
  C5. When the code 38 is followed by \<open>;5;N\<close> with \<open>N\<close> in 0..255, the foreground
  becomes: entry \<open>N\<close> of the 16-entry table for \<open>N < 16\<close>; the cube colour with red
  \<open>((N-16)/36)*51\<close>, green \<open>(((N-16)%36)/6)*51\<close>, blue \<open>((N-16)%6)*51\<close> for
  \<open>16 \<le> N \<le> 231\<close>; the gray \<open>8+(N-232)*10\<close> in all three channels for
  \<open>232 \<le> N \<le> 255\<close>.
\<close>

theorem ansi256_index_resolution:
  assumes "atSemicolon text ptr" and "parseAnsiCode text (ptr + 1) = (5, p2)"
    and "atSemicolon text p2" and "parseAnsiCode text (p2 + 1) = (N, p3)"
    and "0 \<le> N" and "N \<le> 255"
  shows "applyCode text 38 ptr R =
           (p3, R\<lparr>currentColor :=
              (if N < 16 then ANSI_COLORS ! nat N
               else if N \<le> 231 then
                 IM_COL32 (((N - 16) div 36) * 51) ((((N - 16) mod 36) div 6) * 51)
                   (((N - 16) mod 6) * 51) 255
               else IM_COL32 (8 + (N - 232) * 10) (8 + (N - 232) * 10)
                      (8 + (N - 232) * 10) 255)\<rparr>)"
proof -
  have "ansi256ToRgb N =
          (if N < 16 then ANSI_COLORS ! nat N
           else if N \<le> 231 then
             IM_COL32 (((N - 16) div 36) * 51) ((((N - 16) mod 36) div 6) * 51)
               (((N - 16) mod 6) * 51) 255
           else IM_COL32 (8 + (N - 232) * 10) (8 + (N - 232) * 10)
                  (8 + (N - 232) * 10) 255)"
    by (simp add: ansi256ToRgb_def Let_def)
  with applyCode_38_5 [OF assms(1-4)] show ?thesis by simp
qed

text \<open>The index 21 of \<open>38;5;21m\<close> gives pure blue.\<close>

theorem ansi256_index_resolution_witness:
  "atSemicolon ''38;5;21m'' 2 \<and> parseAnsiCode ''38;5;21m'' 3 = (5, 4) \<and>
   atSemicolon ''38;5;21m'' 4 \<and> parseAnsiCode ''38;5;21m'' 5 = (21, 7) \<and>
   (0::int) \<le> 21 \<and> (21::int) \<le> 255 \<and>
   applyCode ''38;5;21m'' 38 2 (initial unitEnv) =
     (7, (initial unitEnv)\<lparr>currentColor := IM_COL32 0 0 255 255\<rparr>)"
proof -
  have a: "atSemicolon ''38;5;21m'' 2" by (simp add: atSemicolon_def)
  have b: "parseAnsiCode ''38;5;21m'' (2 + 1) = (5, 4)" by (simp add: parse_eval)
  have c: "atSemicolon ''38;5;21m'' 4" by (simp add: atSemicolon_def)
  have d: "parseAnsiCode ''38;5;21m'' (4 + 1) = (21, 7)" by (simp add: parse_eval)
  from ansi256_index_resolution [OF a b c d, of "initial unitEnv"] a b c d
  show ?thesis by simp
qed

text \<open>
  C10 as stated fails at the index 256, whose gray value 248 is not above 255.
\<close>

theorem ansi256_gray_256_counterexample:
  "applyCode ''38;5;256m'' 38 2 (initial unitEnv) =
     (8, (initial unitEnv)\<lparr>currentColor := IM_COL32 248 248 248 255\<rparr>)
   \<and> \<not> (255 < (248::int))"
  by (simp add: applyCode_def atSemicolon_def parse_eval ansi256ToRgb_def)

text \<open>
  Where the parsed value fits in an \<open>int\<close>, the 32-bit loop of the source overflows
  nowhere and returns what the unbounded loop returns.
\<close>

lemma digitVal_range: "isDigit c \<Longrightarrow> 0 \<le> digitVal c \<and> digitVal c \<le> 9"
  by (simp add: isDigit_def digitVal_def less_eq_char_def)

lemma parseAnsiCode_loop_grows:
  "parseAnsiCode_loop text ptr r = (N, p) \<Longrightarrow> 0 \<le> r \<Longrightarrow> r \<le> N"
proof (induction "text" ptr r rule: parseAnsiCode_loop.induct)
  case (1 t ptr r)
  show ?case
  proof (cases "ptr < length t \<and> isDigit (t ! ptr)")
    case True
    with "1.prems" have e: "parseAnsiCode_loop t (ptr + 1) (r * 10 + digitVal (t ! ptr)) = (N, p)"
      by (subst (asm) parseAnsiCode_loop.simps) simp
    from True digitVal_range have d: "0 \<le> digitVal (t ! ptr)" by blast
    with "1.prems"(2) have "0 \<le> r * 10 + digitVal (t ! ptr)" by simp
    from "1.IH" [OF True e this] d "1.prems"(2) show ?thesis by simp
  next
    case False
    with "1.prems" show ?thesis by (subst (asm) parseAnsiCode_loop.simps) simp
  qed
qed

lemma parseAnsiCode_loop32_agrees:
  "parseAnsiCode_loop text ptr r = (N, p) \<Longrightarrow> 0 \<le> r \<Longrightarrow> N \<le> INT_MAX \<Longrightarrow>
     parseAnsiCode_loop32 text ptr r = Some (N, p)"
proof (induction "text" ptr r rule: parseAnsiCode_loop.induct)
  case (1 t ptr r)
  show ?case
  proof (cases "ptr < length t \<and> isDigit (t ! ptr)")
    case True
    with "1.prems" have e: "parseAnsiCode_loop t (ptr + 1) (r * 10 + digitVal (t ! ptr)) = (N, p)"
      by (subst (asm) parseAnsiCode_loop.simps) simp
    from True digitVal_range have d: "0 \<le> digitVal (t ! ptr)" by blast
    with "1.prems"(2) have nn: "0 \<le> r * 10 + digitVal (t ! ptr)" by simp
    from parseAnsiCode_loop_grows [OF e nn] "1.prems"(3)
    have le: "r * 10 + digitVal (t ! ptr) \<le> INT_MAX" by simp
    from "1.IH" [OF True e nn "1.prems"(3)] True le show ?thesis
      by (subst parseAnsiCode_loop32.simps) simp
  next
    case False
    with "1.prems"(1) have "N = r \<and> p = ptr"
      by (subst (asm) parseAnsiCode_loop.simps) auto
    with False show ?thesis by (subst parseAnsiCode_loop32.simps) auto
  qed
qed

lemma parseAnsiCode32_agrees:
  "parseAnsiCode text ptr = (N, p) \<Longrightarrow> N \<le> INT_MAX \<Longrightarrow> parseAnsiCode32 text ptr = Some (N, p)"
  unfolding parseAnsiCode_def parseAnsiCode32_def by (rule parseAnsiCode_loop32_agrees) simp_all

text \<open>
  Outside that range the source overflows: in the parse from 2147483648 on, in the
  gray formula from the index 214748596 on.
\<close>

lemma parse_overflow_example: "parseAnsiCode32 ''2147483648'' 0 = None"
  by (simp add: parseAnsiCode32_def parseAnsiCode_loop32.simps isDigit_def digitVal_def INT_MAX_def)

lemma gray_overflow_example: "INT_MAX < 8 + (214748596 - 232) * 10"
  by (simp add: INT_MAX_def)

text \<open>
  C10 (amended). For every parsed index \<open>N\<close> with \<open>232 \<le> N \<le> 214748595\<close>, also
  above 255, the foreground is the gray \<open>8+(N-232)*10\<close> in all three channels, with
  no clamping and no range check; in that range neither the parse nor the formula
  overflows the 32-bit \<open>int\<close>, and from the index 257 on the channel value is above
  255 (the index 256 gives 248).
\<close>

theorem ansi256_gray_unclamped:
  assumes "atSemicolon text ptr" and "parseAnsiCode text (ptr + 1) = (5, p2)"
    and "atSemicolon text p2" and "parseAnsiCode text (p2 + 1) = (N, p3)"
    and "232 \<le> N" and "N \<le> 214748595"
  shows "applyCode text 38 ptr R =
           (p3, R\<lparr>currentColor :=
              IM_COL32 (8 + (N - 232) * 10) (8 + (N - 232) * 10) (8 + (N - 232) * 10) 255\<rparr>)
         \<and> parseAnsiCode32 text (ptr + 1) = Some (5, p2)
         \<and> parseAnsiCode32 text (p2 + 1) = Some (N, p3)
         \<and> 8 + (N - 232) * 10 \<le> INT_MAX
         \<and> (257 \<le> N \<longrightarrow> 255 < 8 + (N - 232) * 10)"
proof -
  from \<open>232 \<le> N\<close> have "ansi256ToRgb N =
      IM_COL32 (8 + (N - 232) * 10) (8 + (N - 232) * 10) (8 + (N - 232) * 10) 255"
    by (simp add: ansi256ToRgb_def Let_def)
  with applyCode_38_5 [OF assms(1-4), of R] have "applyCode text 38 ptr R =
           (p3, R\<lparr>currentColor :=
              IM_COL32 (8 + (N - 232) * 10) (8 + (N - 232) * 10) (8 + (N - 232) * 10) 255\<rparr>)"
    by simp
  moreover have "parseAnsiCode32 text (ptr + 1) = Some (5, p2)"
    using assms(2) by (rule parseAnsiCode32_agrees) (simp add: INT_MAX_def)
  moreover have "parseAnsiCode32 text (p2 + 1) = Some (N, p3)"
    using assms(4) by (rule parseAnsiCode32_agrees) (use assms(6) in \<open>simp add: INT_MAX_def\<close>)
  moreover from assms(6) have "8 + (N - 232) * 10 \<le> INT_MAX" by (simp add: INT_MAX_def)
  moreover have "257 \<le> N \<longrightarrow> 255 < 8 + (N - 232) * 10" by arith
  ultimately show ?thesis by blast
qed

theorem ansi256_gray_unclamped_witness:
  "atSemicolon ''38;5;300m'' 2 \<and> parseAnsiCode ''38;5;300m'' 3 = (5, 4) \<and>
   atSemicolon ''38;5;300m'' 4 \<and> parseAnsiCode ''38;5;300m'' 5 = (300, 8) \<and>
   (232::int) \<le> 300 \<and> (300::int) \<le> 214748595 \<and> (257::int) \<le> 300 \<and>
   applyCode ''38;5;300m'' 38 2 (initial unitEnv) =
     (8, (initial unitEnv)\<lparr>currentColor := IM_COL32 688 688 688 255\<rparr>) \<and>
   parseAnsiCode32 ''38;5;300m'' 5 = Some (300, 8) \<and>
   (688::int) \<le> INT_MAX \<and> (255::int) < 688"
proof -
  have a: "atSemicolon ''38;5;300m'' 2" by (simp add: atSemicolon_def)
  have b: "parseAnsiCode ''38;5;300m'' (2 + 1) = (5, 4)" by (simp add: parse_eval)
  have c: "atSemicolon ''38;5;300m'' 4" by (simp add: atSemicolon_def)
  have d: "parseAnsiCode ''38;5;300m'' (4 + 1) = (300, 8)" by (simp add: parse_eval)
  have e: "(232::int) \<le> 300" by simp
  have f: "(300::int) \<le> 214748595" by simp
  from ansi256_gray_unclamped [OF a b c d e f, of "initial unitEnv"] a b c d
  show ?thesis by simp
qed

subsection \<open>The escape loop on a byte it does not consume\<close>

lemmas escLoop_induct = escLoop.raw_induct [rotated, consumes 1, case_names step]

lemmas mainLoop_induct = mainLoop.raw_induct [rotated, consumes 1, case_names step]

lemma parseAnsiCode_no_digit:
  "\<not> (ptr < length text \<and> isDigit (text ! ptr)) \<Longrightarrow> parseAnsiCode text ptr = (0, ptr)"
  by (simp add: parseAnsiCode_def parseAnsiCode_loop.simps)

text \<open>At such a byte one iteration resets the style and leaves \<open>ptr\<close> where it was.\<close>

lemma escBody_stuck:
  assumes "stuckAt text ptr"
  shows "escBody text ptr R = (ptr, R\<lparr>currentColor := DEFAULT_COLOR, currentBold := False\<rparr>)"
proof -
  from assms have "parseAnsiCode text ptr = (0, ptr)"
    by (intro parseAnsiCode_no_digit) (simp add: stuckAt_def)
  moreover from assms have "\<not> atSemicolon text ptr"
    by (simp add: stuckAt_def atSemicolon_def)
  ultimately show ?thesis by (simp add: escBody_def applyCode_def)
qed

lemma escLoop_Some_not_stuck:
  "escLoop text ptr R = Some y \<Longrightarrow> \<not> stuckAt text ptr"
proof (induction rule: escLoop_induct)
  case (step loop t p R y)
  show ?case
  proof
    assume st: "stuckAt t p"
    then have "p < length t \<and> t ! p \<noteq> CHR ''m''" by (simp add: stuckAt_def)
    with step.hyps escBody_stuck [OF st, of R]
    have "loop t p (R\<lparr>currentColor := DEFAULT_COLOR, currentBold := False\<rparr>) = Some y"
      by simp
    from step.IH [OF this] st show False by simp
  qed
qed

lemma escLoop_stuck: "stuckAt text ptr \<Longrightarrow> escLoop text ptr R = None"
  using escLoop_Some_not_stuck [where ptr = ptr and R = R] by (cases "escLoop text ptr R") auto

lemma mainLoop_stuck:
  assumes "ptr < length text" and "isEscapeStart text ptr" and "stuckAt text (ptr + 2)"
  shows "mainLoop E text ptr segmentStart R = None"
  using assms by (subst mainLoop.simps) (simp add: escLoop_stuck)

text \<open>
  C1 fails on the code. On \<open>ESC [ K\<close> (erase line) the escape loop stays at \<open>K\<close>
  for ever, so the call never returns.
\<close>

theorem erase_line_sequence_never_returns:
  "RenderAnsiText E (CHR 0x1B # ''[K'') = None"
proof -
  have "mainLoop E (CHR 0x1B # ''[K'') 0 0 (initial E) = None"
    by (rule mainLoop_stuck) (simp_all add: isEscapeStart_def stuckAt_def isDigit_def)
  then show ?thesis by (simp add: RenderAnsiText_def scanBuffer_def)
qed

lemmas esc_eval = escLoop.simps escBody_def applyCode_def atSemicolon_def parse_eval

lemmas seg_eval = renderTextSegment_def segLoop.simps flushText_def AddText_def span_def
  newline_def carriageReturn_def tab_def backspace_def int_cast_def

lemmas main_eval = RenderAnsiText_def scanBuffer_def mainLoop.simps isEscapeStart_def skip_m_def
  cursorUpdate_def initial_def unitEnv_def DEFAULT_COLOR_def ANSI_COLORS_def

text \<open>The two colour examples through the whole call.\<close>

lemma index_21_example:
  "RenderAnsiText unitEnv (CHR 0x1B # ''[38;5;21mX'') =
     Some \<lparr>pos_x = 1, pos_y = 0, currentColor = IM_COL32 0 0 255 255, currentBold = False,
           draws = [\<lparr>d_pos_x = 0, d_pos_y = 0, d_col = IM_COL32 0 0 255 255,
                     d_begin = 10, d_end = 11\<rparr>]\<rparr>"
  by (simp add: main_eval esc_eval seg_eval ansi256ToRgb_def)

lemma index_300_example:
  "RenderAnsiText unitEnv (CHR 0x1B # ''[38;5;300mX'') =
     Some \<lparr>pos_x = 1, pos_y = 0, currentColor = IM_COL32 688 688 688 255, currentBold = False,
           draws = [\<lparr>d_pos_x = 0, d_pos_y = 0, d_col = IM_COL32 688 688 688 255,
                     d_begin = 11, d_end = 12\<rparr>]\<rparr>"
  by (simp add: main_eval esc_eval seg_eval ansi256ToRgb_def)

subsection \<open>A sequence open at the end of the buffer\<close>

text \<open>
  C6 fails on the code. The buffer \<open>a ESC [ ?\<close> ends inside an escape sequence;
  the escape loop never leaves the byte \<open>?\<close>, so the sequence is not abandoned and
  the call does not return.
\<close>

theorem open_sequence_with_other_byte_never_returns:
  "RenderAnsiText E (''a'' @ CHR 0x1B # ''[?'') = None"
proof -
  have "mainLoop E (''a'' @ CHR 0x1B # ''[?'') 1 0 (initial E) = None"
    by (rule mainLoop_stuck) (simp_all add: isEscapeStart_def stuckAt_def isDigit_def)
  then have "mainLoop E (''a'' @ CHR 0x1B # ''[?'') 0 0 (initial E) = None"
    by (subst mainLoop.simps) (simp add: isEscapeStart_def)
  then show ?thesis by (simp add: RenderAnsiText_def scanBuffer_def)
qed

text \<open>The example of the claim itself, \<open>a ESC [\<close>, behaves as the claim says.\<close>

lemma truncated_sequence_example:
  "RenderAnsiText unitEnv (''a'' @ CHR 0x1B # ''['') =
     Some \<lparr>pos_x = 1, pos_y = 0, currentColor = DEFAULT_COLOR, currentBold = False,
           draws = [\<lparr>d_pos_x = 0, d_pos_y = 0, d_col = DEFAULT_COLOR,
                     d_begin = 0, d_end = 1\<rparr>]\<rparr>"
  by (simp add: main_eval esc_eval seg_eval)

subsection \<open>Codes without digits\<close>

text \<open>
  C3 as stated fails on \<open>ESC [ m\<close>: after \<open>ESC [ 31 m\<close> the empty sequence leaves
  the red foreground in place, and \<open>X\<close> is drawn red.
\<close>

theorem empty_sequence_keeps_style_counterexample:
  "RenderAnsiText unitEnv (CHR 0x1B # ''[31m'' @ CHR 0x1B # ''[mX'') =
     Some \<lparr>pos_x = 1, pos_y = 0, currentColor = IM_COL32 220 80 80 255, currentBold = False,
           draws = [\<lparr>d_pos_x = 0, d_pos_y = 0, d_col = IM_COL32 220 80 80 255,
                     d_begin = 8, d_end = 9\<rparr>]\<rparr>
   \<and> IM_COL32 220 80 80 255 \<noteq> DEFAULT_COLOR"
  by (simp add: main_eval esc_eval seg_eval)

text \<open>
  C3 (amended). At the start of a code inside an escape sequence, a \<open>;\<close> with no digit
  before it is read as the code 0 and resets the style to the default; an \<open>m\<close> with no
  digit before it ends the sequence with no code applied, so \<open>ESC [ m\<close> leaves the
  style as it was.
\<close>

theorem empty_code_before_separator:
  assumes "ptr < length text"
  shows "(text ! ptr = CHR '';'' \<longrightarrow>
            escLoop text ptr R =
              escLoop text (ptr + 1) (R\<lparr>currentColor := DEFAULT_COLOR, currentBold := False\<rparr>))
       \<and> (text ! ptr = CHR ''m'' \<longrightarrow> escLoop text ptr R = Some (ptr, R))"
proof (intro conjI impI)
  assume semi: "text ! ptr = CHR '';''"
  then have "parseAnsiCode text ptr = (0, ptr)"
    by (intro parseAnsiCode_no_digit) (simp add: isDigit_def)
  with semi assms have
    "escBody text ptr R = (ptr + 1, R\<lparr>currentColor := DEFAULT_COLOR, currentBold := False\<rparr>)"
    by (simp add: escBody_def applyCode_def atSemicolon_def)
  with semi assms show "escLoop text ptr R =
      escLoop text (ptr + 1) (R\<lparr>currentColor := DEFAULT_COLOR, currentBold := False\<rparr>)"
    by (subst escLoop.simps) simp
next
  assume "text ! ptr = CHR ''m''"
  then show "escLoop text ptr R = Some (ptr, R)"
    by (subst escLoop.simps) simp
qed

theorem empty_code_before_separator_witness:
  "(0::nat) < length '';m'' \<and> '';m'' ! 0 = CHR '';'' \<and>
   escLoop '';m'' 0 ((initial unitEnv)\<lparr>currentColor := ANSI_COLORS ! 1, currentBold := True\<rparr>)
     = Some (1, initial unitEnv) \<and>
   (0::nat) < length ''m'' \<and> ''m'' ! 0 = CHR ''m'' \<and>
   escLoop ''m'' 0 ((initial unitEnv)\<lparr>currentColor := ANSI_COLORS ! 1, currentBold := True\<rparr>)
     = Some (0, (initial unitEnv)\<lparr>currentColor := ANSI_COLORS ! 1, currentBold := True\<rparr>)"
proof -
  have a: "(0::nat) < length '';m''" by simp
  have b: "(0::nat) < length ''m''" by simp
  have c: "escLoop '';m'' (0 + 1) (initial unitEnv) = Some (1, initial unitEnv)"
    by (subst escLoop.simps) simp
  from empty_code_before_separator [OF a,
      of "(initial unitEnv)\<lparr>currentColor := ANSI_COLORS ! 1, currentBold := True\<rparr>"]
    empty_code_before_separator [OF b,
      of "(initial unitEnv)\<lparr>currentColor := ANSI_COLORS ! 1, currentBold := True\<rparr>"] c
  show ?thesis by (simp add: initial_def)
qed

subsection \<open>The cursor position handed back\<close>

text \<open>
  C9. After the buffer is consumed, the correction changes only the final pen position
  (the style and the draw calls stay as they are):
  for a last byte \<open>\n\<close>, \<open>pos.x\<close> returns to the line start and \<open>pos.y\<close> advances by
  one line height, unless the byte before it is \<open>\r\<close>, when only \<open>pos.x\<close> is reset;
  for a last byte \<open>\r\<close>, \<open>pos.x\<close> returns to the line start and \<open>pos.y\<close> stays; the
  draw calls already made (with their positions) are the same before and after.
\<close>

theorem end_of_buffer_correction:
  assumes "scanBuffer E text = Some R0" and "RenderAnsiText E text = Some R"
  shows "draws R = draws R0 \<and> currentColor R = currentColor R0 \<and> currentBold R = currentBold R0
       \<and> (text \<noteq> [] \<and> last text = CHR 0x0A \<longrightarrow>
            pos_x R = startPos_x E \<and>
            pos_y R = (if 2 \<le> length text \<and> text ! (length text - 2) = CHR 0x0D
                       then pos_y R0 else pos_y R0 + lineHeight E))
       \<and> (text \<noteq> [] \<and> last text = CHR 0x0D \<longrightarrow>
            pos_x R = startPos_x E \<and> pos_y R = pos_y R0)
       \<and> (text = [] \<or> (last text \<noteq> CHR 0x0A \<and> last text \<noteq> CHR 0x0D) \<longrightarrow>
            pos_x R = pos_x R0 \<and> pos_y R = pos_y R0)"
proof -
  from assms have R: "R = cursorUpdate E text R0" by (simp add: RenderAnsiText_def)
  have l: "text \<noteq> [] \<Longrightarrow> text ! (length text - 1) = last text"
    by (simp add: last_conv_nth)
  show ?thesis
  proof (cases "text = []")
    case True
    with R show ?thesis by (simp add: cursorUpdate_def)
  next
    case False
    then have "1 \<le> length text" by (cases "text") simp_all
    then have "length text = 1 \<or> 2 \<le> length text" by arith
    with False l R show ?thesis by (auto simp add: cursorUpdate_def Let_def)
  qed
qed

theorem end_of_buffer_correction_witness:
  "scanBuffer unitEnv (''a'' @ [CHR 0x0A]) =
     Some \<lparr>pos_x = 0, pos_y = 1, currentColor = DEFAULT_COLOR, currentBold = False,
           draws = [\<lparr>d_pos_x = 0, d_pos_y = 0, d_col = DEFAULT_COLOR,
                     d_begin = 0, d_end = 1\<rparr>]\<rparr> \<and>
   RenderAnsiText unitEnv (''a'' @ [CHR 0x0A]) =
     Some \<lparr>pos_x = 0, pos_y = 2, currentColor = DEFAULT_COLOR, currentBold = False,
           draws = [\<lparr>d_pos_x = 0, d_pos_y = 0, d_col = DEFAULT_COLOR,
                     d_begin = 0, d_end = 1\<rparr>]\<rparr> \<and>
   ''a'' @ [CHR 0x0A] \<noteq> [] \<and> last (''a'' @ [CHR 0x0A]) = CHR 0x0A \<and>
   (2::real) = 1 + lineHeight unitEnv"
proof -
  have a: "scanBuffer unitEnv (''a'' @ [CHR 0x0A]) =
     Some \<lparr>pos_x = 0, pos_y = 1, currentColor = DEFAULT_COLOR, currentBold = False,
           draws = [\<lparr>d_pos_x = 0, d_pos_y = 0, d_col = DEFAULT_COLOR,
                     d_begin = 0, d_end = 1\<rparr>]\<rparr>"
    by (simp add: main_eval esc_eval seg_eval)
  have b: "RenderAnsiText unitEnv (''a'' @ [CHR 0x0A]) =
     Some \<lparr>pos_x = 0, pos_y = 2, currentColor = DEFAULT_COLOR, currentBold = False,
           draws = [\<lparr>d_pos_x = 0, d_pos_y = 0, d_col = DEFAULT_COLOR,
                     d_begin = 0, d_end = 1\<rparr>]\<rparr>"
    by (simp add: main_eval esc_eval seg_eval)
  from end_of_buffer_correction [OF a b] a b show ?thesis by (simp add: unitEnv_def)
qed

subsection \<open>What the escape loop leaves alone\<close>

lemma parseAnsiCode_loop_bounds:
  "parseAnsiCode_loop text ptr r = (c, p) \<Longrightarrow>
     ptr \<le> p \<and> (ptr \<le> length text \<longrightarrow> p \<le> length text)"
proof (induction "text" ptr r rule: parseAnsiCode_loop.induct)
  case (1 t ptr r)
  show ?case
  proof (cases "ptr < length t \<and> isDigit (t ! ptr)")
    case True
    with "1.prems" have "parseAnsiCode_loop t (ptr + 1) (r * 10 + digitVal (t ! ptr)) = (c, p)"
      by (subst (asm) parseAnsiCode_loop.simps) simp
    from "1.IH" [OF True this] True show ?thesis by simp
  next
    case False
    with "1.prems" show ?thesis by (subst (asm) parseAnsiCode_loop.simps) auto
  qed
qed

lemma parseAnsiCode_bounds:
  "parseAnsiCode text ptr = (c, p) \<Longrightarrow>
     ptr \<le> p \<and> (ptr \<le> length text \<longrightarrow> p \<le> length text)"
  unfolding parseAnsiCode_def by (rule parseAnsiCode_loop_bounds)

lemma parse_after_semicolon:
  assumes "atSemicolon text q" and "parseAnsiCode text (q + 1) = (c, p)"
  shows "q \<le> p \<and> p \<le> length text"
  using assms parseAnsiCode_bounds [of "text" "q + 1" c p] by (simp add: atSemicolon_def)

text \<open>A code changes the style only, and never moves \<open>ptr\<close> back or past the end.\<close>

lemma applyCode_frame:
  assumes "applyCode text code ptr R = (p, R')" and "ptr \<le> length text"
  shows "ptr \<le> p \<and> p \<le> length text \<and>
         R' = R\<lparr>currentColor := currentColor R', currentBold := currentBold R'\<rparr>"
proof (cases "code = 38 \<and> atSemicolon text ptr")
  case False
  with assms show ?thesis by (auto simp add: applyCode_def split: if_splits)
next
  case True
  obtain ty p2 where t: "parseAnsiCode text (ptr + 1) = (ty, p2)" by (cases "parseAnsiCode text (ptr + 1)")
  obtain c3 p3 where c3: "parseAnsiCode text (p2 + 1) = (c3, p3)" by (cases "parseAnsiCode text (p2 + 1)")
  obtain c4 p4 where c4: "parseAnsiCode text (p3 + 1) = (c4, p4)" by (cases "parseAnsiCode text (p3 + 1)")
  obtain c5 p5 where c5: "parseAnsiCode text (p4 + 1) = (c5, p5)" by (cases "parseAnsiCode text (p4 + 1)")
  from True parse_after_semicolon [OF _ t] have b2: "ptr \<le> p2 \<and> p2 \<le> length text"
    by blast
  have b3: "atSemicolon text p2 \<Longrightarrow> p2 \<le> p3 \<and> p3 \<le> length text"
    using parse_after_semicolon [OF _ c3] by blast
  have b4: "atSemicolon text p3 \<Longrightarrow> p3 \<le> p4 \<and> p4 \<le> length text"
    using parse_after_semicolon [OF _ c4] by blast
  have b5: "atSemicolon text p4 \<Longrightarrow> p4 \<le> p5 \<and> p5 \<le> length text"
    using parse_after_semicolon [OF _ c5] by blast
  from assms(1) True t c3 c4 c5 b2 b3 b4 b5 show ?thesis
    by (auto simp add: applyCode_def split: if_splits)
qed

lemma escBody_frame:
  assumes "escBody text ptr R = (p, R')" and "ptr \<le> length text"
  shows "ptr \<le> p \<and> p \<le> length text \<and>
         R' = R\<lparr>currentColor := currentColor R', currentBold := currentBold R'\<rparr>"
proof -
  obtain code p1 where c: "parseAnsiCode text ptr = (code, p1)" by (cases "parseAnsiCode text ptr")
  obtain p2 R2 where a: "applyCode text code p1 R = (p2, R2)" by (cases "applyCode text code p1 R")
  from c assms(2) have b1: "ptr \<le> p1 \<and> p1 \<le> length text" using parseAnsiCode_bounds by blast
  with a have b2: "p1 \<le> p2 \<and> p2 \<le> length text \<and>
      R2 = R\<lparr>currentColor := currentColor R2, currentBold := currentBold R2\<rparr>"
    by (intro applyCode_frame) simp_all
  from assms(1) c a have "R' = R2" "p = (if atSemicolon text p2 then p2 + 1 else p2)"
    by (simp_all add: escBody_def)
  with b1 b2 show ?thesis by (auto simp add: atSemicolon_def)
qed

lemma escLoop_frame:
  "escLoop text ptr R = Some y \<Longrightarrow> ptr \<le> length text \<Longrightarrow>
     ptr \<le> fst y \<and> fst y \<le> length text \<and>
     snd y = R\<lparr>currentColor := currentColor (snd y), currentBold := currentBold (snd y)\<rparr>"
proof (induction rule: escLoop_induct)
  case (step loop t p R y)
  show ?case
  proof (cases "p < length t \<and> t ! p \<noteq> CHR ''m''")
    case False
    with step.hyps have "y = (p, R)" by simp
    with step.prems show ?thesis by simp
  next
    case True
    obtain p' R' where b: "escBody t p R = (p', R')" by (cases "escBody t p R")
    with True step.hyps have l: "loop t p' R' = Some y" by simp
    from escBody_frame [OF b step.prems] have f: "p \<le> p'" "p' \<le> length t"
      "R' = R\<lparr>currentColor := currentColor R', currentBold := currentBold R'\<rparr>" by simp_all
    from step.IH [OF l f(2)] have g: "p' \<le> fst y" "fst y \<le> length t"
      "snd y = R'\<lparr>currentColor := currentColor (snd y), currentBold := currentBold (snd y)\<rparr>"
      by simp_all
    from g(3) f(3) have "snd y = R\<lparr>currentColor := currentColor (snd y), currentBold := currentBold (snd y)\<rparr>"
      by (metis (no_types, lifting) render.surjective render.update_convs(3,4) render.select_convs)
    with f g show ?thesis by simp
  qed
qed

subsection \<open>Text without escape sequences and control characters\<close>

lemma literalByte_not_control:
  assumes "literalByte c"
  shows "c \<noteq> CHR 0x0A" "c \<noteq> CHR 0x0D" "c \<noteq> CHR 0x09" "c \<noteq> CHR 0x08"
    "\<not> ((of_char c :: nat) < 32 \<and> c \<noteq> CHR 0x1B)"
  using assms by (auto simp add: literalByte_def printable_def)

lemma mainLoop_no_escape:
  assumes "\<forall>i. ptr \<le> i \<and> i < length text \<longrightarrow> \<not> isEscapeStart text i"
  shows "mainLoop E text ptr segmentStart R = Some (max ptr (length text), segmentStart, R)"
  using assms
proof (induction "length text - ptr" arbitrary: ptr)
  case 0
  then show ?case by (subst mainLoop.simps) (simp add: max_def)
next
  case (Suc n)
  then have lt: "ptr < length text" by simp
  with Suc.prems have ne: "\<not> isEscapeStart text ptr" by simp
  from Suc.hyps(2) have "n = length text - (ptr + 1)" by simp
  moreover from Suc.prems have "\<forall>i. ptr + 1 \<le> i \<and> i < length text \<longrightarrow> \<not> isEscapeStart text i"
    by simp
  ultimately have "mainLoop E text (ptr + 1) segmentStart R =
      Some (max (ptr + 1) (length text), segmentStart, R)"
    by (rule Suc.hyps(1))
  with lt ne show ?case by (subst mainLoop.simps) (simp add: max_def)
qed

lemma segLoop_literal:
  assumes "\<forall>i. current \<le> i \<and> i < segEnd \<longrightarrow> literalByte (text ! i)"
  shows "segLoop E text segStart current segEnd R =
           flushText E text segStart (max current segEnd) R"
  using assms
proof (induction E "text" segStart current segEnd R rule: segLoop.induct)
  case (1 E t segStart current segEnd R)
  show ?case
  proof (cases "current < segEnd")
    case True
    with "1.prems" have p: "literalByte (t ! current)" by simp
    have "segLoop E t segStart current segEnd R = segLoop E t segStart (current + 1) segEnd R"
      using True literalByte_not_control [OF p] by (subst segLoop.simps) auto
    also have "\<dots> = flushText E t segStart (max (current + 1) segEnd) R"
      using True literalByte_not_control [OF p] "1.prems" by (intro "1.IH"(6)) simp_all
    finally show ?thesis using True by (simp add: max_def)
  next
    case False
    then show ?thesis by (subst segLoop.simps) (simp add: max_def)
  qed
qed

text \<open>A buffer of literal bytes with no escape sequence is drawn by one call.\<close>

lemma literal_buffer_one_run:
  assumes "text \<noteq> []" and "\<forall>i. i < length text \<longrightarrow> literalByte (text ! i)"
    and "noEscapeIn text 0 (length text)"
  shows "RenderAnsiText E text =
           Some \<lparr>pos_x = startPos_x E + CalcTextSize_x E text, pos_y = startPos_y E,
                 currentColor = DEFAULT_COLOR, currentBold = False,
                 draws = [\<lparr>d_pos_x = startPos_x E, d_pos_y = startPos_y E,
                           d_col = DEFAULT_COLOR, d_begin = 0, d_end = length text\<rparr>]\<rparr>"
proof -
  from assms(3) have "\<forall>i. 0 \<le> i \<and> i < length text \<longrightarrow> \<not> isEscapeStart text i"
    by (simp add: noEscapeIn_def)
  then have m: "mainLoop E text 0 0 (initial E) = Some (length text, 0, initial E)"
    using mainLoop_no_escape [of 0 "text" E 0 "initial E"] by simp
  from assms(2) have "segLoop E text 0 0 (length text) (initial E) =
      flushText E text 0 (max 0 (length text)) (initial E)"
    by (intro segLoop_literal) simp
  with assms(1) have s: "renderTextSegment E text 0 (length text) (initial E) =
      flushText E text 0 (length text) (initial E)"
    by (simp add: renderTextSegment_def)
  from assms(1,2) have "literalByte (text ! (length text - 1))" by simp
  then have nl: "text ! (length text - 1) \<noteq> CHR 0x0A" "text ! (length text - 1) \<noteq> CHR 0x0D"
    using literalByte_not_control by auto
  from assms(1) m s nl show ?thesis
    by (simp add: RenderAnsiText_def scanBuffer_def cursorUpdate_def flushText_def AddText_def
        span_def initial_def)
qed

text \<open>
  C4 as stated fails on the empty buffer, which has no ESC byte and no control
  character: no run is emitted.
\<close>

theorem empty_buffer_no_run_counterexample:
  "RenderAnsiText unitEnv [] =
     Some \<lparr>pos_x = 0, pos_y = 0, currentColor = DEFAULT_COLOR, currentBold = False,
           draws = []\<rparr>"
  by (simp add: main_eval)

text \<open>
  C4 (amended). For every non-empty input with no byte below 0x20 (so no ESC and no
  control character), the call makes exactly one draw call: its span is the whole
  input, its position the origin, its colour the default white; the bold flag of the
  state stays false; the pen advances by the measured width of the input.
\<close>

theorem plain_text_is_one_run:
  assumes "text \<noteq> []" and "\<forall>c \<in> set text. 32 \<le> (of_char c :: nat)"
  shows "RenderAnsiText E text =
           Some \<lparr>pos_x = startPos_x E + CalcTextSize_x E text, pos_y = startPos_y E,
                 currentColor = DEFAULT_COLOR, currentBold = False,
                 draws = [\<lparr>d_pos_x = startPos_x E, d_pos_y = startPos_y E,
                           d_col = DEFAULT_COLOR, d_begin = 0, d_end = length text\<rparr>]\<rparr>"
proof -
  from assms(2) have lit: "\<forall>i. i < length text \<longrightarrow> literalByte (text ! i)"
    by (simp add: literalByte_def printable_def)
  have "\<not> isEscapeStart text i" if "i < length text" for i
  proof -
    from that assms(2) have "32 \<le> (of_char (text ! i) :: nat)" by simp
    then have "text ! i \<noteq> CHR 0x1B" by auto
    then show ?thesis by (simp add: isEscapeStart_def)
  qed
  then have "noEscapeIn text 0 (length text)" by (simp add: noEscapeIn_def)
  with assms(1) lit show ?thesis by (rule literal_buffer_one_run)
qed

theorem plain_text_is_one_run_witness:
  "''hello'' \<noteq> [] \<and> list_all (\<lambda>c. 32 \<le> (of_char c :: nat)) ''hello'' \<and>
   RenderAnsiText unitEnv ''hello'' =
     Some \<lparr>pos_x = 5, pos_y = 0, currentColor = DEFAULT_COLOR, currentBold = False,
           draws = [\<lparr>d_pos_x = 0, d_pos_y = 0, d_col = DEFAULT_COLOR,
                     d_begin = 0, d_end = 5\<rparr>]\<rparr>"
proof -
  have a: "''hello'' \<noteq> []" by simp
  have b: "\<forall>c \<in> set ''hello''. 32 \<le> (of_char c :: nat)" by simp
  from plain_text_is_one_run [OF a b, of unitEnv] a b show ?thesis
    by (simp add: unitEnv_def)
qed

subsection \<open>Invariants of the main loop\<close>

text \<open>
  A property \<open>Q\<close> of the state that holds initially, that \<open>renderTextSegment\<close>
  preserves on segments without escape sequences, and that does not depend on the
  style, holds when the main loop exits.
\<close>

lemma mainLoop_invariant:
  assumes "mainLoop E text ptr segmentStart R = Some y"
    and "Q R" and "segmentStart \<le> ptr" and "ptr \<le> length text"
    and "noEscapeIn text segmentStart ptr"
    and "\<forall>a b R. Q R \<and> a < b \<and> b \<le> length text \<and> noEscapeIn text a b \<longrightarrow>
           Q (renderTextSegment E text a b R)"
    and "\<forall>R c b. Q R \<longrightarrow> Q (R\<lparr>currentColor := c, currentBold := b\<rparr>)"
  shows "case y of (p', s', R') \<Rightarrow>
           Q R' \<and> s' \<le> p' \<and> p' \<le> length text \<and> noEscapeIn text s' p'"
  using assms
proof (induction rule: mainLoop_induct)
  case (step loop E t p s R y)
  note seg = step.prems(5) and sty = step.prems(6)
  show ?case
  proof (cases "p < length t")
    case False
    with step.hyps have "y = (p, s, R)" by simp
    with step.prems show ?thesis by simp
  next
    case lt: True
    show ?thesis
    proof (cases "isEscapeStart t p")
      case False
      with lt step.hyps have l: "loop E t (p + 1) s R = Some y" by simp
      from False step.prems(4) have "noEscapeIn t s (p + 1)"
        by (auto simp add: noEscapeIn_def less_Suc_eq)
      with step.prems lt show ?thesis by (intro step.IH [OF l]) simp_all
    next
      case True
      define R1 where "R1 = (if s < p then renderTextSegment E t s p R else R)"
      from True lt step.hyps R1_def have
        b: "Option.bind (escLoop t (p + 2) R1)
              (\<lambda>(q, R'). loop E t (skip_m t q) (skip_m t q) R') = Some y" by simp
      then obtain q R2 where e: "escLoop t (p + 2) R1 = Some (q, R2)"
        and l: "loop E t (skip_m t q) (skip_m t q) R2 = Some y"
        by (cases "escLoop t (p + 2) R1") auto
      from True have p2: "p + 2 \<le> length t" by (simp add: isEscapeStart_def)
      from escLoop_frame [OF e p2] have f: "q \<le> length t"
        "R2 = R1\<lparr>currentColor := currentColor R2, currentBold := currentBold R2\<rparr>" by simp_all
      from seg step.prems(1,3,4) lt have "Q R1" unfolding R1_def by auto
      with sty f(2) have "Q R2" by metis
      moreover from f(1) have "skip_m t q \<le> length t" by (simp add: skip_m_def)
      moreover have "noEscapeIn t (skip_m t q) (skip_m t q)" by (auto simp add: noEscapeIn_def)
      ultimately show ?thesis using seg sty by (intro step.IH [OF l]) simp_all
    qed
  qed
qed

lemma scanBuffer_invariant:
  assumes "scanBuffer E text = Some R'"
    and "Q (initial E)"
    and "\<forall>a b R. Q R \<and> a < b \<and> b \<le> length text \<and> noEscapeIn text a b \<longrightarrow>
           Q (renderTextSegment E text a b R)"
    and "\<forall>R c b. Q R \<longrightarrow> Q (R\<lparr>currentColor := c, currentBold := b\<rparr>)"
  shows "Q R'"
proof -
  from assms(1) obtain p s R where m: "mainLoop E text 0 0 (initial E) = Some (p, s, R)"
    and R': "R' = (if s < p then renderTextSegment E text s p R else R)"
    by (cases "mainLoop E text 0 0 (initial E)") (auto simp add: scanBuffer_def)
  have "noEscapeIn text 0 0" by (simp add: noEscapeIn_def)
  from mainLoop_invariant [OF m assms(2) _ _ this assms(3,4)]
  have "Q R \<and> s \<le> p \<and> p \<le> length text \<and> noEscapeIn text s p" by simp
  with assms(3) R' show ?thesis by auto
qed

subsection \<open>The pen stays right of the line start\<close>

lemma flushText_penInv:
  assumes "\<forall>s. 0 \<le> CalcTextSize_x E s" and "penInv E R"
  shows "penInv E (flushText E text a b R)"
proof -
  from assms(1) have "0 \<le> CalcTextSize_x E (span text a b)" by simp
  with assms(2) show ?thesis
    by (auto simp add: penInv_def flushText_def AddText_def Let_def)
qed

lemma newline_penInv: "penInv E R \<Longrightarrow> penInv E (newline E R)"
  by (simp add: penInv_def newline_def)

lemma carriageReturn_penInv: "penInv E R \<Longrightarrow> penInv E (carriageReturn E R)"
  by (simp add: penInv_def carriageReturn_def)

lemma backspace_clamps: "startPos_x E \<le> pos_x (backspace E R)"
  by (simp add: backspace_def Let_def)

lemma backspace_penInv: "penInv E R \<Longrightarrow> penInv E (backspace E R)"
  by (simp add: penInv_def backspace_def Let_def)

lemma tab_penInv:
  assumes "\<forall>s. 0 \<le> CalcTextSize_x E s" and "penInv E R"
  shows "penInv E (tab E R)"
proof -
  define w where "w = CalcTextSize_x E ''A'' * 8"
  define col where "col = pos_x R - startPos_x E"
  from assms(1) have w: "0 \<le> w" by (simp add: w_def)
  from assms(2) have col: "0 \<le> col" by (simp add: col_def penInv_def)
  from w col have "0 \<le> col / w" by simp
  then have "0 \<le> int_cast (col / w)" by (simp add: int_cast_def)
  then have "0 \<le> real_of_int (int_cast (col / w) + 1)" by simp
  from this w have "0 \<le> real_of_int (int_cast (col / w) + 1) * w" by (rule mult_nonneg_nonneg)
  with assms(2) show ?thesis
    by (simp add: penInv_def tab_def Let_def w_def col_def)
qed

lemma segLoop_penInv:
  assumes "\<forall>s. 0 \<le> CalcTextSize_x E s" and "penInv E R"
  shows "penInv E (segLoop E text segStart current segEnd R)"
  using assms
proof (induction E "text" segStart current segEnd R rule: segLoop.induct)
  case (1 E t segStart current segEnd R)
  note w = "1.prems"(1)
  from "1.prems" have f: "penInv E (flushText E t segStart current R)"
    by (rule flushText_penInv)
  show ?case
  proof (cases "current < segEnd")
    case False
    with f show ?thesis by (subst segLoop.simps) simp
  next
    case True
    note IH = "1.IH" [unfolded Suc_eq_plus1 [symmetric]]
    show ?thesis
      apply (subst segLoop.simps)
      using True w f "1.prems"(2) IH
      apply (auto simp add: newline_penInv carriageReturn_penInv tab_penInv backspace_penInv)
      done
  qed
qed

lemma renderTextSegment_penInv:
  assumes "\<forall>s. 0 \<le> CalcTextSize_x E s" and "penInv E R"
  shows "penInv E (renderTextSegment E text a b R)"
  using assms by (simp add: renderTextSegment_def segLoop_penInv)

lemma cursorUpdate_penInv: "penInv E R \<Longrightarrow> penInv E (cursorUpdate E text R)"
  by (simp add: penInv_def cursorUpdate_def Let_def)

text \<open>
  C7. If the measurement returns no negative width, then at the end of the call, and
  at every draw call made during it, \<open>pos.x\<close> is at least the line-start x (the
  origin's x); \<open>renderTextSegment\<close>, which holds every control-character step, keeps
  that invariant from any state; and backspace clamps \<open>pos.x\<close> at the line start.
\<close>

theorem pen_not_left_of_line_start:
  assumes "\<forall>s. 0 \<le> CalcTextSize_x E s" and "RenderAnsiText E text = Some R"
  shows "penInv E R
       \<and> (\<forall>R0 a b. penInv E R0 \<longrightarrow> penInv E (renderTextSegment E text a b R0))
       \<and> (\<forall>R0. startPos_x E \<le> pos_x (backspace E R0))"
proof -
  from assms(2) obtain R1 where s: "scanBuffer E text = Some R1"
    and R: "R = cursorUpdate E text R1"
    by (cases "scanBuffer E text") (auto simp add: RenderAnsiText_def)
  have seg: "\<forall>R0 a b. penInv E R0 \<longrightarrow> penInv E (renderTextSegment E text a b R0)"
    using assms(1) by (simp add: renderTextSegment_penInv)
  have "penInv E R1"
  proof (rule scanBuffer_invariant [OF s])
    show "penInv E (initial E)" by (simp add: penInv_def initial_def)
    show "\<forall>a b R. penInv E R \<and> a < b \<and> b \<le> length text \<and> noEscapeIn text a b \<longrightarrow>
           penInv E (renderTextSegment E text a b R)"
      using seg by simp
    show "\<forall>R c b. penInv E R \<longrightarrow> penInv E (R\<lparr>currentColor := c, currentBold := b\<rparr>)"
      by (simp add: penInv_def)
  qed
  with R have "penInv E R" by (simp add: cursorUpdate_penInv)
  with seg show ?thesis by (simp add: backspace_clamps)
qed

theorem pen_not_left_of_line_start_witness:
  "(\<forall>s. 0 \<le> CalcTextSize_x unitEnv s) \<and>
   RenderAnsiText unitEnv (''a'' @ [CHR 0x08, CHR 0x08] @ ''b'') =
     Some \<lparr>pos_x = 1, pos_y = 0, currentColor = DEFAULT_COLOR, currentBold = False,
           draws = [\<lparr>d_pos_x = 0, d_pos_y = 0, d_col = DEFAULT_COLOR, d_begin = 0, d_end = 1\<rparr>,
                    \<lparr>d_pos_x = 0, d_pos_y = 0, d_col = DEFAULT_COLOR, d_begin = 3, d_end = 4\<rparr>]\<rparr> \<and>
   penInv unitEnv
     \<lparr>pos_x = 1, pos_y = 0, currentColor = DEFAULT_COLOR, currentBold = False,
      draws = [\<lparr>d_pos_x = 0, d_pos_y = 0, d_col = DEFAULT_COLOR, d_begin = 0, d_end = 1\<rparr>,
               \<lparr>d_pos_x = 0, d_pos_y = 0, d_col = DEFAULT_COLOR, d_begin = 3, d_end = 4\<rparr>]\<rparr>"
proof -
  have a: "\<forall>s. 0 \<le> CalcTextSize_x unitEnv s" by (simp add: unitEnv_def)
  have b: "RenderAnsiText unitEnv (''a'' @ [CHR 0x08, CHR 0x08] @ ''b'') =
     Some \<lparr>pos_x = 1, pos_y = 0, currentColor = DEFAULT_COLOR, currentBold = False,
           draws = [\<lparr>d_pos_x = 0, d_pos_y = 0, d_col = DEFAULT_COLOR, d_begin = 0, d_end = 1\<rparr>,
                    \<lparr>d_pos_x = 0, d_pos_y = 0, d_col = DEFAULT_COLOR, d_begin = 3, d_end = 4\<rparr>]\<rparr>"
    by (simp add: main_eval esc_eval seg_eval)
  from pen_not_left_of_line_start [OF a b] a b show ?thesis by simp
qed

subsection \<open>What the span of a run holds\<close>












subsection \<open>The bold flag\<close>






end
